theory Spec2Isabelle
  imports Complex_Main
begin

section \<open>Python values and exceptions\<close>

text \<open>
  The exceptions the three scripts can meet. A function of the source that may raise
  returns \<open>py_error + 'a\<close>, with \<open>Inl\<close> for the exception.
\<close>

datatype py_error =
    AttributeError | KeyError | ValueError | TypeError | OverflowError
  | FileNotFoundError | CalledProcessError | JSONDecodeError | RequestException

definition ebind :: "py_error + 'a \<Rightarrow> ('a \<Rightarrow> py_error + 'b) \<Rightarrow> py_error + 'b" where
  "ebind m f = (case m of Inl e \<Rightarrow> Inl e | Inr x \<Rightarrow> f x)"

text \<open>
  A decoded JSON document, as \<open>json.loads\<close> and \<open>response.json()\<close> build it. An
  object is the list of its items in insertion order (the keys of a Python dict are
  distinct; a lookup takes the item found). The type \<open>'f\<close> stands for Python's float.
\<close>

datatype 'f json =
    JNull | JBool bool | JInt int | JFloat 'f | JStr string
  | JList "'f json list" | JObj "(string \<times> 'f json) list"

text \<open>
  The two operations on floats the instance finder uses: the built-in \<open>float(x)\<close>
  (which raises \<open>ValueError\<close>, \<open>TypeError\<close> or \<open>OverflowError\<close>) and the comparison of a
  float with an int. They are parameters of the model.
\<close>

record 'f float_ops =
  to_float :: "'f json \<Rightarrow> py_error + 'f"
  float_eq_int :: "'f \<Rightarrow> int \<Rightarrow> bool"

fun contains_sub :: "string \<Rightarrow> string \<Rightarrow> bool" where
  "contains_sub k [] = (k = [])"
| "contains_sub k (c # cs) = (take (length k) (c # cs) = k \<or> contains_sub k cs)"

text \<open>\<open>x.get(k, dflt)\<close>: only a dict has the method.\<close>

fun py_get :: "'f json \<Rightarrow> string \<Rightarrow> 'f json \<Rightarrow> py_error + 'f json" where
  "py_get (JObj d) k dflt = Inr (case map_of d k of Some v \<Rightarrow> v | None \<Rightarrow> dflt)"
| "py_get _ k dflt = Inl AttributeError"

fun is_str :: "string \<Rightarrow> 'f json \<Rightarrow> bool" where
  "is_str k (JStr s) = (s = k)"
| "is_str k _ = False"

text \<open>\<open>k in x\<close> for a string \<open>k\<close>: a key of a dict, an element of a list, a substring of
  a string; anything else is not iterable.\<close>

fun py_in :: "string \<Rightarrow> 'f json \<Rightarrow> py_error + bool" where
  "py_in k (JObj d) = Inr (k \<in> set (map fst d))"
| "py_in k (JList xs) = Inr (list_ex (is_str k) xs)"
| "py_in k (JStr s) = Inr (contains_sub k s)"
| "py_in k _ = Inl TypeError"

text \<open>\<open>x[k]\<close> for a string \<open>k\<close>.\<close>

fun py_getitem :: "'f json \<Rightarrow> string \<Rightarrow> py_error + 'f json" where
  "py_getitem (JObj d) k = (case map_of d k of Some v \<Rightarrow> Inr v | None \<Rightarrow> Inl KeyError)"
| "py_getitem _ k = Inl TypeError"

text \<open>\<open>x == n\<close> for an int \<open>n\<close>: \<open>True == 1\<close> and \<open>2.0 == 2\<close> hold in Python.\<close>

fun py_eq_int :: "'f float_ops \<Rightarrow> 'f json \<Rightarrow> int \<Rightarrow> bool" where
  "py_eq_int F (JInt m) n = (m = n)"
| "py_eq_int F (JBool b) n = ((if b then 1 else 0) = n)"
| "py_eq_int F (JFloat x) n = float_eq_int F x n"
| "py_eq_int F _ n = False"

section \<open>The instance finder (aws_instance_finder.py)\<close>

definition price_of_key :: "'f float_ops \<Rightarrow> 'f json \<Rightarrow> string \<Rightarrow> py_error + 'f option" where
  "price_of_key F us_east_1_prices k =
     ebind (py_getitem us_east_1_prices k) (\<lambda>v.
     ebind (to_float F v) (\<lambda>x. Inr (Some x)))"

text \<open>The body of the \<open>try\<close> block of \<open>get_linux_price_us_east_1\<close>.\<close>

definition get_linux_price_try :: "'f float_ops \<Rightarrow> 'f json \<Rightarrow> py_error + 'f option" where
  "get_linux_price_try F instance_data =
     ebind (py_get instance_data ''prices'' (JObj [])) (\<lambda>prices.
     ebind (py_get prices ''Linux'' (JObj [])) (\<lambda>linux_prices.
     ebind (py_get linux_prices ''us-east-1'' (JObj [])) (\<lambda>us_east_1_prices.
     ebind (py_in ''Shared'' us_east_1_prices) (\<lambda>has_shared.
       if has_shared then price_of_key F us_east_1_prices ''Shared''
       else ebind (py_in ''Dedicated'' us_east_1_prices) (\<lambda>has_dedicated.
         if has_dedicated then price_of_key F us_east_1_prices ''Dedicated''
         else Inr None)))))"

text \<open>\<open>except (KeyError, ValueError, TypeError): return None\<close>; any other exception
  leaves the function.\<close>

definition get_linux_price_us_east_1 :: "'f float_ops \<Rightarrow> 'f json \<Rightarrow> py_error + 'f option" where
  "get_linux_price_us_east_1 F instance_data =
     (case get_linux_price_try F instance_data of
        Inl e \<Rightarrow> if e = KeyError \<or> e = ValueError \<or> e = TypeError then Inr None else Inl e
      | Inr r \<Rightarrow> Inr r)"

text \<open>The loop of \<open>filter_instances\<close> over \<open>instances.items()\<close>; \<open>acc\<close> is
  \<open>filtered_instances\<close>, and each \<open>continue\<close> is the recursive call on the rest.\<close>

fun filter_loop ::
  "'f float_ops \<Rightarrow> int \<Rightarrow> string set option \<Rightarrow> (string \<times> 'f json) list \<Rightarrow>
   (string \<times> 'f json \<times> 'f) list \<Rightarrow> py_error + (string \<times> 'f json \<times> 'f) list" where
  "filter_loop F cpu_count allowed [] acc = Inr acc"
| "filter_loop F cpu_count allowed ((instance_name, instance_data) # rest) acc =
     (if (case allowed of None \<Rightarrow> False | Some a \<Rightarrow> instance_name \<notin> a)
      then filter_loop F cpu_count allowed rest acc
      else ebind (py_get instance_data ''vcpu'' JNull) (\<lambda>vcpu.
        if \<not> py_eq_int F vcpu cpu_count then filter_loop F cpu_count allowed rest acc
        else ebind (get_linux_price_us_east_1 F instance_data) (\<lambda>price.
          case price of
            None \<Rightarrow> filter_loop F cpu_count allowed rest acc
          | Some p \<Rightarrow>
              ebind (py_get instance_data ''regions'' (JList [])) (\<lambda>regions.
              ebind (py_in ''us-east-1'' regions) (\<lambda>in_regions.
                if \<not> in_regions then filter_loop F cpu_count allowed rest acc
                else filter_loop F cpu_count allowed rest
                       (acc @ [(instance_name, instance_data, p)]))))))"

definition filter_instances ::
  "'f float_ops \<Rightarrow> (string \<times> 'f json) list \<Rightarrow> int \<Rightarrow> string set option \<Rightarrow>
   py_error + (string \<times> 'f json \<times> 'f) list" where
  "filter_instances F instances cpu_count allowed_instances =
     filter_loop F cpu_count allowed_instances instances []"

text \<open>The instance record of the spec's example.\<close>

definition m5_large :: "'f json" where
  "m5_large =
     JObj [(''vcpu'', JInt 2),
           (''regions'', JList [JStr ''us-east-1'']),
           (''prices'', JObj [(''Linux'', JObj [(''us-east-1'',
               JObj [(''Shared'', JStr ''0.096'')])])])]"

text \<open>A sample instance of the float operations, for evaluating the model: floats as
  rationals, and \<open>float(s)\<close> of a string by a table of the literals of the examples.\<close>

definition example_floats :: "rat float_ops" where
  "example_floats =
     \<lparr>to_float = (\<lambda>v. case v of
          JStr s \<Rightarrow> (if s = ''0.096'' then Inr (12 / 125)
                     else if s = ''0.102'' then Inr (51 / 500) else Inl ValueError)
        | JFloat x \<Rightarrow> Inr x
        | JInt n \<Rightarrow> Inr (of_int n)
        | JBool b \<Rightarrow> Inr (if b then 1 else 0)
        | _ \<Rightarrow> Inl TypeError),
      float_eq_int = (\<lambda>x n. x = of_int n)\<rparr>"

text \<open>A record that has only the Dedicated price.\<close>

definition dedicated_only :: "rat json" where
  "dedicated_only =
     JObj [(''vcpu'', JInt 2),
           (''regions'', JList [JStr ''us-east-1'']),
           (''prices'', JObj [(''Linux'', JObj [(''us-east-1'',
               JObj [(''Dedicated'', JStr ''0.102'')])])])]"

section \<open>Regular expressions, as Python's backtracking matcher runs them\<close>

text \<open>
  Text is a list of characters, each a code point below 256. A pattern is run on a
  subject \<open>t\<close> from a position \<open>i\<close> and gives the end positions of all the ways it can
  match there, in the order in which Python's backtracking matcher tries them: the
  result of a match is the first one. Greedy repetition lists the longest match first;
  an alternative lists its left branch first; an optional part is tried before it is
  left out.
\<close>

type_synonym rx = "string \<Rightarrow> nat \<Rightarrow> nat list"

definition lit :: "string \<Rightarrow> rx" where
  "lit w t i = (if take (length w) (drop i t) = w then [i + length w] else [])"

text \<open>\<open>[class]+\<close>, greedy.\<close>

definition plus :: "(char \<Rightarrow> bool) \<Rightarrow> rx" where
  "plus P t i = map (\<lambda>k. i + k) (rev [1..<Suc (length (takeWhile P (drop i t)))])"

text \<open>\<open>[class]\<close>, one character.\<close>

definition one :: "(char \<Rightarrow> bool) \<Rightarrow> rx" where
  "one P t i = (if i < length t \<and> P (t ! i) then [Suc i] else [])"

text \<open>\<open>[class]{n}\<close>.\<close>

definition rep :: "(char \<Rightarrow> bool) \<Rightarrow> nat \<Rightarrow> rx" where
  "rep P n t i = (if i + n \<le> length t \<and> list_all P (take n (drop i t)) then [i + n] else [])"

definition seq :: "rx \<Rightarrow> rx \<Rightarrow> rx" where
  "seq p q t i = concat (map (q t) (p t i))"

definition alt :: "rx \<Rightarrow> rx \<Rightarrow> rx" where
  "alt p q t i = p t i @ q t i"

definition opt :: "rx \<Rightarrow> rx" where
  "opt p t i = p t i @ [i]"

text \<open>\<open>^\<close> and \<open>$\<close> without the MULTILINE flag: \<open>$\<close> matches at the end and before a
  newline that ends the subject.\<close>

definition bol :: rx where
  "bol t i = (if i = 0 then [i] else [])"

definition eol :: rx where
  "eol t i = (if i = length t \<or> (Suc i = length t \<and> t ! i = CHR 0x0A) then [i] else [])"

text \<open>\<open>\s\<close> on \<open>str\<close> patterns, which is also what \<open>str.strip()\<close> removes: the code
  points below 256 for which \<open>str.isspace()\<close> holds.\<close>

definition is_space :: "char \<Rightarrow> bool" where
  "is_space c = (of_char c \<in> {9, 10, 11, 12, 13, 28, 29, 30, 31, 32, 133, 160 :: nat})"

text \<open>\<open>[a-f0-9]\<close>.\<close>

definition is_hex :: "char \<Rightarrow> bool" where
  "is_hex c = (c \<in> set ''abcdef0123456789'')"

text \<open>\<open>.\<close> without the DOTALL flag.\<close>

definition dot :: "char \<Rightarrow> bool" where
  "dot c = (c \<noteq> CHR 0x0A)"

definition ws :: rx where
  "ws = plus is_space"

text \<open>\<open>t[i:j]\<close>.\<close>

definition slice :: "string \<Rightarrow> nat \<Rightarrow> nat \<Rightarrow> string" where
  "slice t i j = take (j - i) (drop i t)"

definition starts_with :: "string \<Rightarrow> string \<Rightarrow> bool" where
  "starts_with w s = (take (length w) s = w)"

text \<open>\<open>re.search\<close>: the first position, from the left, at which the pattern matches, with
  the first match there.\<close>

fun first_match :: "(nat \<Rightarrow> 'a list) \<Rightarrow> nat list \<Rightarrow> (nat \<times> 'a) option" where
  "first_match f [] = None"
| "first_match f (i # is) = (case f i of [] \<Rightarrow> first_match f is | x # _ \<Rightarrow> Some (i, x))"

definition re_search :: "(string \<Rightarrow> nat \<Rightarrow> 'a list) \<Rightarrow> string \<Rightarrow> (nat \<times> 'a) option" where
  "re_search m t = first_match (m t) [0..<Suc (length t)]"

text \<open>
  \<open>re.sub(pattern, r'\g<1>' + h + r'\g<2>', t)\<close> for a pattern made of group 1, a middle
  part and group 2: \<open>m t i\<close> lists the matches at \<open>i\<close> as (end of group 1, start of group 2,
  end of the match). The scan goes from left to right; a match is replaced by group 1,
  \<open>h\<close> and group 2, and the scan goes on at its end. The replacement template is taken
  as Python expands it when \<open>h\<close> has no backslash. (The last branch is what \<open>re.sub\<close>
  does after an empty match; the patterns of the scripts have none.)
\<close>

function sub_from ::
  "(string \<Rightarrow> nat \<Rightarrow> (nat \<times> nat \<times> nat) list) \<Rightarrow> string \<Rightarrow> string \<Rightarrow> nat \<Rightarrow> string" where
  "sub_from m h t i =
     (if length t < i then []
      else case m t i of
        [] \<Rightarrow> (if i < length t then t ! i # sub_from m h t (Suc i) else [])
      | (e1, e2, e3) # _ \<Rightarrow>
          slice t i e1 @ h @ slice t e2 e3 @
          (if i < e3 then sub_from m h t e3
           else if i < length t then t ! i # sub_from m h t (Suc i) else []))"
  by pat_completeness auto
termination
  by (relation "measure (\<lambda>(m, h, t, i). Suc (length t) - i)") auto

declare sub_from.simps [simp del]

definition re_sub :: "(string \<Rightarrow> nat \<Rightarrow> (nat \<times> nat \<times> nat) list) \<Rightarrow> string \<Rightarrow> string \<Rightarrow> string" where
  "re_sub m h t = sub_from m h t 0"

section \<open>The two updaters (update_stagex_hashes.py and x86/update.py)\<close>

text \<open>The scripts differ in the registry part of their patterns and in the resolver.\<close>

datatype variant = Stagex | X86

text \<open>\<open>stagex/\<close> in update_stagex_hashes.py;
  \<open>(?:\$\{STAGEX_REG\}/|[^/]+/)?\<close> in x86/update.py.\<close>

definition registry_prefix :: "variant \<Rightarrow> rx" where
  "registry_prefix v = (case v of
     Stagex \<Rightarrow> lit ''stagex/''
   | X86 \<Rightarrow> opt (alt (lit ''${STAGEX_REG}/'') (seq (plus (\<lambda>c. c \<noteq> CHR ''/'')) (lit ''/''))))"

text \<open>
  The pattern of \<open>extract_stagex_images\<close>,
  \<open>^FROM\s+<registry>([^@:]+)[@:]([^@\s]+)\s+AS\s+(.+)$\<close>, run by \<open>re.match\<close>. A match is
  (start of group 1, end of group 1, start of group 2, end of group 2).
\<close>

definition from_pattern :: "variant \<Rightarrow> string \<Rightarrow> (nat \<times> nat \<times> nat \<times> nat) list" where
  "from_pattern v t =
     List.bind (seq bol (seq (lit ''FROM'') (seq ws (registry_prefix v))) t 0) (\<lambda>a.
     List.bind (plus (\<lambda>c. c \<noteq> CHR ''@'' \<and> c \<noteq> CHR '':'') t a) (\<lambda>b.
     List.bind (one (\<lambda>c. c = CHR ''@'' \<or> c = CHR '':'') t b) (\<lambda>c.
     List.bind (plus (\<lambda>c. c \<noteq> CHR ''@'' \<and> \<not> is_space c) t c) (\<lambda>d.
     List.bind (seq ws (seq (lit ''AS'') (seq ws (seq (plus dot) eol))) t d) (\<lambda>e.
       [(a, b, c, d)])))))"

text \<open>
  The pattern of \<open>update_containerfile\<close>,
  \<open>(FROM\s+<registry><re.escape(image_name)>@sha256:)[a-f0-9]{64}(\s+AS\s+.+)\<close>.
\<close>

definition decl_pattern :: "variant \<Rightarrow> string \<Rightarrow> string \<Rightarrow> nat \<Rightarrow> (nat \<times> nat \<times> nat) list" where
  "decl_pattern v image_name t i =
     List.bind (seq (lit ''FROM'') (seq ws (seq (registry_prefix v)
                  (lit (image_name @ ''@sha256:'')))) t i) (\<lambda>e1.
     List.bind (rep is_hex 64 t e1) (\<lambda>e2.
     List.bind (seq ws (seq (lit ''AS'') (seq ws (plus dot))) t e2) (\<lambda>e3.
       [(e1, e2, e3)])))"

subsection \<open>Files and output\<close>

text \<open>One constructor for each \<open>print\<close> of the updaters, with the values it shows.\<close>

datatype message =
    Skipping_local string
  | Fetching_manifest string
  | Fetching string
  | Warning_no_arm64 string
  | Error_fetching string
  | Error_stderr string
  | Error_parsing string
  | Backup_created string
  | Updated string
  | No_changes_needed
  | Processing_file string
  | Found_images nat
  | Processing_image string
  | Current_hash string
  | New_hash_updated string
  | New_hash_no_change string
  | Failed_to_get string
  | Updating_images nat string
  | No_updates_needed
  | Warning_failed nat
  | Failed_item string
  | All_processed

text \<open>
  The world of a run: the text files by path (as \<open>read()\<close> returns them), the writes done
  so far, oldest first, and the lines printed. Reading a missing file raises
  \<open>FileNotFoundError\<close>; writing succeeds.
\<close>

record world =
  files :: "string \<Rightarrow> string option"
  writes :: "(string \<times> string) list"
  stdout :: "message list"

definition write_file :: "string \<Rightarrow> string \<Rightarrow> world \<Rightarrow> world" where
  "write_file path content w =
     w\<lparr>files := (files w)(path \<mapsto> content), writes := writes w @ [(path, content)]\<rparr>"

definition print :: "message list \<Rightarrow> world \<Rightarrow> world" where
  "print ms w = w\<lparr>stdout := stdout w @ ms\<rparr>"

subsection \<open>extract_stagex_images\<close>

text \<open>\<open>readlines()\<close>: the lines of the text, each with its newline.\<close>

fun readlines :: "string \<Rightarrow> string list" where
  "readlines [] = []"
| "readlines (c # cs) =
     (if c = CHR 0x0A then [c] # readlines cs
      else case readlines cs of [] \<Rightarrow> [[c]] | l # ls \<Rightarrow> (c # l) # ls)"

definition strip :: "string \<Rightarrow> string" where
  "strip s = rev (dropWhile is_space (rev (dropWhile is_space s)))"

type_synonym image = "string \<times> string \<times> string"

text \<open>The loop over the lines; \<open>images\<close> is the list built by \<open>images.append\<close>.\<close>

fun extract_loop ::
  "variant \<Rightarrow> string list \<Rightarrow> image list \<Rightarrow> message list \<Rightarrow> image list \<times> message list" where
  "extract_loop v [] images out = (images, out)"
| "extract_loop v (raw # rest) images out =
     (let line = strip raw in
      if starts_with ''#'' line \<or> line = [] then extract_loop v rest images out
      else case from_pattern v line of
        [] \<Rightarrow> extract_loop v rest images out
      | (a, b, c, d) # _ \<Rightarrow>
          (let image_name = slice line a b; current_ref = slice line c d in
           if current_ref = ''local''
           then extract_loop v rest images (out @ [Skipping_local image_name])
           else if starts_with ''sha256:'' current_ref
           then extract_loop v rest (images @ [(image_name, drop 7 current_ref, line)]) out
           else extract_loop v rest images out))"

definition extract_images :: "variant \<Rightarrow> string \<Rightarrow> image list" where
  "extract_images v content = fst (extract_loop v (readlines content) [] [])"


text \<open>What one line of the file adds to the list of \<open>extract_stagex_images\<close>: the body of
  its loop, for a line as \<open>readlines()\<close> gives it.\<close>

definition line_entry :: "variant \<Rightarrow> string \<Rightarrow> image option" where
  "line_entry v raw =
     (let line = strip raw in
      if starts_with ''#'' line \<or> line = [] then None
      else case from_pattern v line of
        [] \<Rightarrow> None
      | (a, b, c, d) # _ \<Rightarrow>
          if slice line c d = ''local'' then None
          else if starts_with ''sha256:'' (slice line c d)
          then Some (slice line a b, drop 7 (slice line c d), line)
          else None)"

subsection \<open>update_containerfile\<close>

text \<open>The loop over \<open>updates.items()\<close>: one \<open>re.sub\<close> for each entry, in the order of the
  dict.\<close>

fun apply_updates :: "variant \<Rightarrow> (string \<times> string) list \<Rightarrow> string \<Rightarrow> string" where
  "apply_updates v [] content = content"
| "apply_updates v ((image_name, new_hash) # rest) content =
     apply_updates v rest (re_sub (decl_pattern v image_name) new_hash content)"

definition update_containerfile ::
  "variant \<Rightarrow> string \<Rightarrow> (string \<times> string) list \<Rightarrow> world \<Rightarrow> (py_error + unit) \<times> world" where
  "update_containerfile v containerfile_path updates w =
     (case files w containerfile_path of
        None \<Rightarrow> (Inl FileNotFoundError, w)
      | Some original_content \<Rightarrow>
          (let content = apply_updates v updates original_content in
           if content \<noteq> original_content then
             (let backup_path = containerfile_path @ ''.backup'';
                  w1 = write_file backup_path original_content w;
                  w2 = print [Backup_created backup_path] w1;
                  w3 = write_file containerfile_path content w2
              in (Inr (), print [Updated containerfile_path] w3))
           else (Inr (), print [No_changes_needed] w)))"

subsection \<open>get_arm64_hash\<close>

text \<open>A pattern \<open>w([a-f0-9]{64})\<close> for a literal \<open>w\<close>; a match is the span of the group.\<close>

definition digest_after :: "string \<Rightarrow> string \<Rightarrow> nat \<Rightarrow> (nat \<times> nat) list" where
  "digest_after w t i =
     List.bind (lit w t i) (\<lambda>a. List.bind (rep is_hex 64 t a) (\<lambda>b. [(a, b)]))"

text \<open>\<open>re.search\<close> of such a pattern, and group 1 of the match.\<close>

definition search_digest :: "string \<Rightarrow> string \<Rightarrow> string option" where
  "search_digest w t =
     (case re_search (digest_after w) t of
        None \<Rightarrow> None
      | Some (i, a, b) \<Rightarrow> Some (slice t a b))"

text \<open>
  What \<open>docker manifest inspect --verbose\<close> can do in update_stagex_hashes.py: the
  executable is missing (\<open>subprocess.run\<close> raises \<open>FileNotFoundError\<close>), it exits with a
  nonzero status (\<open>CalledProcessError\<close>, with its stderr), its output is not JSON
  (\<open>JSONDecodeError\<close>), or its output decodes to a document.
\<close>

datatype 'f docker_outcome =
    Docker_missing | Docker_failed string | Docker_unparsable | Docker_json "'f json"

text \<open>\<open>for entry in x\<close>: the elements of a list, the keys of a dict, the characters of a
  string.\<close>

fun py_iter :: "'f json \<Rightarrow> py_error + 'f json list" where
  "py_iter (JList xs) = Inr xs"
| "py_iter (JObj d) = Inr (map (\<lambda>kv. JStr (fst kv)) d)"
| "py_iter (JStr s) = Inr (map (\<lambda>c. JStr [c]) s)"
| "py_iter _ = Inl TypeError"

text \<open>\<open>re.search(r'@sha256:([a-f0-9]{64})', ref)\<close>: a \<open>ref\<close> that is no string raises
  \<open>TypeError\<close>.\<close>

fun ref_digest :: "'f json \<Rightarrow> py_error + string option" where
  "ref_digest (JStr r) = Inr (search_digest ''@sha256:'' r)"
| "ref_digest _ = Inl TypeError"

text \<open>The loop over the entries of the manifest list.\<close>

fun find_arm64 :: "'f json list \<Rightarrow> py_error + string option" where
  "find_arm64 [] = Inr None"
| "find_arm64 (entry # rest) =
     ebind (py_get entry ''Descriptor'' (JObj [])) (\<lambda>descriptor.
     ebind (py_get descriptor ''platform'' (JObj [])) (\<lambda>platform.
     ebind (py_get platform ''architecture'' JNull) (\<lambda>architecture.
     ebind (py_get platform ''os'' JNull) (\<lambda>os.
       if is_str ''arm64'' architecture \<and> is_str ''linux'' os
       then ebind (py_get entry ''Ref'' (JStr [])) (\<lambda>ref.
            ebind (ref_digest ref) (\<lambda>found.
              case found of Some h \<Rightarrow> Inr (Some h) | None \<Rightarrow> find_arm64 rest))
       else find_arm64 rest))))"

text \<open>\<open>get_arm64_hash\<close> of update_stagex_hashes.py: the lines it prints and its result.
  Only \<open>CalledProcessError\<close> and \<open>JSONDecodeError\<close> are caught.\<close>

definition get_arm64_hash_stagex ::
  "(string \<Rightarrow> 'f docker_outcome) \<Rightarrow> string \<Rightarrow> message list \<times> (py_error + string option)" where
  "get_arm64_hash_stagex docker image_name =
     (case docker (''ghcr.io/siderolabs/stagex/'' @ image_name @ '':latest'') of
        Docker_missing \<Rightarrow> ([Fetching_manifest image_name], Inl FileNotFoundError)
      | Docker_failed err \<Rightarrow>
          ([Fetching_manifest image_name, Error_fetching image_name, Error_stderr err], Inr None)
      | Docker_unparsable \<Rightarrow>
          ([Fetching_manifest image_name, Error_parsing image_name], Inr None)
      | Docker_json manifest_data \<Rightarrow>
          (case ebind (py_iter manifest_data) find_arm64 of
             Inl e \<Rightarrow> ([Fetching_manifest image_name], Inl e)
           | Inr (Some h) \<Rightarrow> ([Fetching_manifest image_name], Inr (Some h))
           | Inr None \<Rightarrow>
               ([Fetching_manifest image_name, Warning_no_arm64 image_name], Inr None)))"

text \<open>\<open>image_name.split("-", 1)\<close> unpacked into two names: \<open>ValueError\<close> when the name has
  no dash.\<close>

definition split_dash :: "string \<Rightarrow> py_error + string \<times> string" where
  "split_dash s =
     (if CHR ''-'' \<in> set s
      then Inr (takeWhile (\<lambda>c. c \<noteq> CHR ''-'') s, tl (dropWhile (\<lambda>c. c \<noteq> CHR ''-'') s))
      else Inl ValueError)"

text \<open>The URL of x86/update.py, computed before its \<open>try\<close> block.\<close>

definition package_url :: "string \<Rightarrow> py_error + string" where
  "package_url image_name =
     (if image_name = ''core-ca-certificates''
      then Inr ''https://stagex.tools/packages/core/ca-certificates''
      else if image_name = ''user-linux-nitro''
      then Inr ''https://stagex.tools/packages/user/linux-nitro''
      else ebind
        (if starts_with ''core-'' image_name then Inr (''core'', drop 5 image_name)
         else if starts_with ''user-'' image_name then Inr (''user'', drop 5 image_name)
         else split_dash image_name)
        (\<lambda>(kind, subpath). Inr (''https://stagex.tools/packages/'' @ kind @ ''/'' @
            map (\<lambda>c. if c = CHR ''-'' then CHR ''/'' else c) subpath)))"

text \<open>
  What the request of x86/update.py can do: \<open>requests.get\<close> or \<open>raise_for_status\<close>
  raises, or the page is parsed, and \<open>Page\<close> holds its text nodes in document order.
\<close>

datatype page_outcome = Request_failed | Page "string list"

text \<open>\<open>get_arm64_hash\<close> of x86/update.py. Inside the \<open>try\<close> every exception is caught.\<close>

definition get_arm64_hash_x86 ::
  "(string \<Rightarrow> page_outcome) \<Rightarrow> string \<Rightarrow> message list \<times> (py_error + string option)" where
  "get_arm64_hash_x86 fetch image_name =
     (case package_url image_name of
        Inl e \<Rightarrow> ([], Inl e)
      | Inr url \<Rightarrow>
          (case fetch url of
             Request_failed \<Rightarrow> ([Fetching url, Error_fetching image_name], Inr None)
           | Page nodes \<Rightarrow>
               (case List.find (\<lambda>s. search_digest ''linux/arm64 sha256:'' s \<noteq> None) nodes of
                  None \<Rightarrow> ([Fetching url, Warning_no_arm64 image_name], Inr None)
                | Some node \<Rightarrow>
                    (case search_digest ''sha256:'' node of
                       None \<Rightarrow> ([Fetching url, Error_fetching image_name], Inr None)
                     | Some h \<Rightarrow> ([Fetching url], Inr (Some h))))))"

subsection \<open>main\<close>









subsection \<open>Sample inputs\<close>

text \<open>Two digests, a build file that pins \<open>foo\<close> and \<open>foo-extra\<close>, and a world that holds
  it as \<open>Containerfile\<close>.\<close>

definition hexA :: string where
  "hexA = replicate 64 (CHR ''a'')"

definition hexB :: string where
  "hexB = replicate 64 (CHR ''b'')"

definition containerfile_example :: string where
  "containerfile_example =
     ''FROM stagex/foo@sha256:'' @ hexA @ '' AS foo'' @ [CHR 0x0A] @
     ''FROM stagex/foo-extra@sha256:'' @ hexA @ '' AS extra'' @ [CHR 0x0A]"

definition containerfile_updated :: string where
  "containerfile_updated =
     ''FROM stagex/foo@sha256:'' @ hexB @ '' AS foo'' @ [CHR 0x0A] @
     ''FROM stagex/foo-extra@sha256:'' @ hexA @ '' AS extra'' @ [CHR 0x0A]"

definition example_world :: world where
  "example_world =
     \<lparr>files = (\<lambda>p. if p = ''Containerfile'' then Some containerfile_example else None),
      writes = [], stdout = []\<rparr>"

subsection \<open>What a rewrite may change\<close>


text \<open>
  \<open>digest_rewrite key h t t'\<close>: the text \<open>t'\<close> is the text \<open>t\<close> in which some runs of 64
  characters of \<open>[a-f0-9]\<close> that directly follow an occurrence of \<open>key\<close> are replaced by
  \<open>h\<close>, and nothing else is changed.
\<close>

inductive digest_rewrite :: "string \<Rightarrow> string \<Rightarrow> string \<Rightarrow> string \<Rightarrow> bool" where
  same: "digest_rewrite key h t t"
| keep: "digest_rewrite key h t t' \<Longrightarrow> digest_rewrite key h (c # t) (c # t')"
| hit: "length d = 64 \<Longrightarrow> list_all is_hex d \<Longrightarrow> digest_rewrite key h t t' \<Longrightarrow>
        digest_rewrite key h (key @ d @ t) (key @ h @ t')"

text \<open>A build file in which the line of \<open>foo-extra\<close> goes on with a declaration of
  \<open>foo\<close>.\<close>

definition containerfile_two_on_a_line :: string where
  "containerfile_two_on_a_line =
     ''FROM stagex/foo-extra@sha256:'' @ hexA @ '' AS x FROM stagex/foo@sha256:'' @ hexA @
       '' AS y'' @ [CHR 0x0A] @
     ''FROM stagex/foo@sha256:'' @ hexA @ '' AS foo'' @ [CHR 0x0A]"



section \<open>Properties of the instance finder\<close>

lemma ebind_simps [simp]: "ebind (Inl e) f = Inl e" "ebind (Inr x) f = f x"
  by (simp_all add: ebind_def)

lemma ebind_Inr_iff: "ebind m f = Inr r \<longleftrightarrow> (\<exists>x. m = Inr x \<and> f x = Inr r)"
  by (cases m) simp_all

text \<open>
  Claim C9. On the instance map of the spec's example (\<open>m5.large\<close> with 2 vCPUs, region
  \<open>us-east-1\<close> and the Shared Linux price \<open>"0.096"\<close>; \<open>m5.xlarge\<close> with 4 vCPUs and any
  other fields), \<open>filter_instances\<close> with \<open>cpu_count = 2\<close> and no allowed set returns
  exactly one entry, the one of \<open>m5.large\<close>, with the float of \<open>"0.096"\<close> as its price.
\<close>

theorem filter_instances_example:
  assumes "to_float F (JStr ''0.096'') = Inr p"
    and "map_of xl ''vcpu'' = Some (JInt 4)"
  shows "filter_instances F [(''m5.large'', m5_large), (''m5.xlarge'', JObj xl)] 2 None
         = Inr [(''m5.large'', m5_large, p)]"
  using assms
  by (simp add: filter_instances_def m5_large_def get_linux_price_us_east_1_def
      get_linux_price_try_def price_of_key_def)

theorem filter_instances_example_witness:
  "filter_instances example_floats
     [(''m5.large'', m5_large),
      (''m5.xlarge'', JObj [(''vcpu'', JInt 4), (''regions'', JList [JStr ''eu-west-1''])])]
     2 None
   = Inr [(''m5.large'', m5_large, 12 / 125)]"
  by (rule filter_instances_example) (simp_all add: example_floats_def)

lemma filter_loop_step:
  assumes "filter_loop F c a ((n, d) # rest) acc = Inr res"
  shows "filter_loop F c a rest acc = Inr res \<or>
         (\<exists>p. get_linux_price_us_east_1 F d = Inr (Some p) \<and>
              filter_loop F c a rest (acc @ [(n, d, p)]) = Inr res)"
proof (cases "case a of None \<Rightarrow> False | Some s \<Rightarrow> n \<notin> s")
  case True
  with assms show ?thesis by simp
next
  case False
  with assms obtain vcpu where v: "py_get d ''vcpu'' JNull = Inr vcpu"
    and r1: "(if \<not> py_eq_int F vcpu c then filter_loop F c a rest acc
        else ebind (get_linux_price_us_east_1 F d) (\<lambda>price.
          case price of
            None \<Rightarrow> filter_loop F c a rest acc
          | Some p \<Rightarrow>
              ebind (py_get d ''regions'' (JList [])) (\<lambda>regions.
              ebind (py_in ''us-east-1'' regions) (\<lambda>in_regions.
                if \<not> in_regions then filter_loop F c a rest acc
                else filter_loop F c a rest (acc @ [(n, d, p)]))))) = Inr res"
    by (simp add: ebind_Inr_iff) blast
  show ?thesis
  proof (cases "py_eq_int F vcpu c")
    case False
    with r1 show ?thesis by simp
  next
    case True
    with r1 obtain price where p: "get_linux_price_us_east_1 F d = Inr price"
      and r2: "(case price of
            None \<Rightarrow> filter_loop F c a rest acc
          | Some p \<Rightarrow>
              ebind (py_get d ''regions'' (JList [])) (\<lambda>regions.
              ebind (py_in ''us-east-1'' regions) (\<lambda>in_regions.
                if \<not> in_regions then filter_loop F c a rest acc
                else filter_loop F c a rest (acc @ [(n, d, p)])))) = Inr res"
      by (simp add: ebind_Inr_iff) blast
    show ?thesis
    proof (cases price)
      case None
      with r2 show ?thesis by simp
    next
      case (Some q)
      with r2 obtain regions inr where "py_get d ''regions'' (JList []) = Inr regions"
        "py_in ''us-east-1'' regions = Inr inr"
        and r3: "(if \<not> inr then filter_loop F c a rest acc
                else filter_loop F c a rest (acc @ [(n, d, q)])) = Inr res"
        by (simp add: ebind_Inr_iff) blast
      then show ?thesis using p Some by (cases inr) simp_all
    qed
  qed
qed

lemma filter_loop_prices:
  "filter_loop F c a xs acc = Inr res \<Longrightarrow>
   (\<forall>(n, d, p) \<in> set acc. get_linux_price_us_east_1 F d = Inr (Some p)) \<Longrightarrow>
   (\<forall>(n, d, p) \<in> set res. get_linux_price_us_east_1 F d = Inr (Some p))"
proof (induction xs arbitrary: acc)
  case Nil
  then show ?case by simp
next
  case (Cons x xs)
  obtain n d where x: "x = (n, d)" by (cases x)
  from filter_loop_step[OF Cons.prems(1)[unfolded x]]
  show ?case
  proof
    assume "filter_loop F c a xs acc = Inr res"
    then show ?thesis using Cons.IH Cons.prems(2) by blast
  next
    assume "\<exists>p. get_linux_price_us_east_1 F d = Inr (Some p) \<and>
              filter_loop F c a xs (acc @ [(n, d, p)]) = Inr res"
    then obtain p where p: "get_linux_price_us_east_1 F d = Inr (Some p)"
      and r: "filter_loop F c a xs (acc @ [(n, d, p)]) = Inr res" by blast
    have "\<forall>(n, d, p) \<in> set (acc @ [(n, d, p)]). get_linux_price_us_east_1 F d = Inr (Some p)"
      using Cons.prems(2) p by auto
    from Cons.IH[OF r this] show ?thesis .
  qed
qed


lemma in_keys_iff: "k \<in> fst ` set d \<longleftrightarrow> map_of d k \<noteq> None"
  by (simp add: map_of_eq_None_iff)

lemma get_linux_price_try_obj:
  assumes "py_get instance_data ''prices'' (JObj []) = Inr prices"
    and "py_get prices ''Linux'' (JObj []) = Inr linux_prices"
    and "py_get linux_prices ''us-east-1'' (JObj []) = Inr (JObj us)"
  shows "get_linux_price_try F instance_data =
     (case map_of us ''Shared'' of
        Some v \<Rightarrow> ebind (to_float F v) (\<lambda>x. Inr (Some x))
      | None \<Rightarrow> (case map_of us ''Dedicated'' of
          Some v \<Rightarrow> ebind (to_float F v) (\<lambda>x. Inr (Some x))
        | None \<Rightarrow> Inr None))"
  using assms
  by (simp add: get_linux_price_try_def price_of_key_def in_keys_iff split: option.splits)

lemma filter_loop_skip:
  assumes "py_get d ''prices'' (JObj []) = Inr prices"
    and "get_linux_price_us_east_1 F d = Inr None"
  shows "filter_loop F c a ((n, d) # rest) acc = filter_loop F c a rest acc"
proof -
  from assms(1) obtain kv where "d = JObj kv" by (cases d) simp_all
  then show ?thesis using assms(2) by simp
qed

text \<open>
  Claim C10. For an instance record (an object whose \<open>prices\<close>, \<open>prices.Linux\<close> and
  \<open>prices.Linux.us-east-1\<close>, where present, are objects), \<open>get_linux_price_us_east_1\<close>
  returns the float of the \<open>Shared\<close> entry when that key is present, otherwise the float
  of the \<open>Dedicated\<close> entry when that key is present, and otherwise \<open>None\<close>. When it
  returns \<open>None\<close>, \<open>filter_instances\<close> skips the instance, and every entry of a result
  of \<open>filter_instances\<close> carries the price of its record.
\<close>

theorem get_linux_price_shared_then_dedicated:
  assumes "py_get instance_data ''prices'' (JObj []) = Inr prices"
    and "py_get prices ''Linux'' (JObj []) = Inr linux_prices"
    and "py_get linux_prices ''us-east-1'' (JObj []) = Inr (JObj us)"
  shows "(\<forall>v x. map_of us ''Shared'' = Some v \<longrightarrow> to_float F v = Inr x \<longrightarrow>
            get_linux_price_us_east_1 F instance_data = Inr (Some x)) \<and>
         (\<forall>v x. map_of us ''Shared'' = None \<longrightarrow> map_of us ''Dedicated'' = Some v \<longrightarrow>
            to_float F v = Inr x \<longrightarrow>
            get_linux_price_us_east_1 F instance_data = Inr (Some x)) \<and>
         (map_of us ''Shared'' = None \<longrightarrow> map_of us ''Dedicated'' = None \<longrightarrow>
            get_linux_price_us_east_1 F instance_data = Inr None) \<and>
         (\<forall>n rest acc c a. get_linux_price_us_east_1 F instance_data = Inr None \<longrightarrow>
            filter_loop F c a ((n, instance_data) # rest) acc = filter_loop F c a rest acc) \<and>
         (\<forall>instances c a res n d p. filter_instances F instances c a = Inr res \<longrightarrow>
            (n, d, p) \<in> set res \<longrightarrow> get_linux_price_us_east_1 F d = Inr (Some p))"
proof (intro conjI allI impI)
  fix v x assume "map_of us ''Shared'' = Some v" "to_float F v = Inr x"
  then show "get_linux_price_us_east_1 F instance_data = Inr (Some x)"
    by (simp add: get_linux_price_us_east_1_def get_linux_price_try_obj[OF assms])
next
  fix v x assume "map_of us ''Shared'' = None" "map_of us ''Dedicated'' = Some v"
    "to_float F v = Inr x"
  then show "get_linux_price_us_east_1 F instance_data = Inr (Some x)"
    by (simp add: get_linux_price_us_east_1_def get_linux_price_try_obj[OF assms])
next
  assume "map_of us ''Shared'' = None" "map_of us ''Dedicated'' = None"
  then show "get_linux_price_us_east_1 F instance_data = Inr None"
    by (simp add: get_linux_price_us_east_1_def get_linux_price_try_obj[OF assms])
next
  fix n rest acc c a
  assume "get_linux_price_us_east_1 F instance_data = Inr None"
  then show "filter_loop F c a ((n, instance_data) # rest) acc = filter_loop F c a rest acc"
    by (rule filter_loop_skip[OF assms(1)])
next
  fix instances c a res n d p
  assume "filter_instances F instances c a = Inr res" "(n, d, p) \<in> set res"
  then show "get_linux_price_us_east_1 F d = Inr (Some p)"
    using filter_loop_prices[of F c a instances "[]" res]
    by (auto simp: filter_instances_def)
qed

theorem get_linux_price_shared_then_dedicated_witness:
  "get_linux_price_us_east_1 example_floats m5_large = Inr (Some (12 / 125)) \<and>
   get_linux_price_us_east_1 example_floats dedicated_only = Inr (Some (51 / 500)) \<and>
   get_linux_price_us_east_1 example_floats (JObj [(''vcpu'', JInt 2)]) = Inr None \<and>
   filter_instances example_floats [(''t1'', JObj [(''vcpu'', JInt 2)])] 2 None = Inr []"
proof -
  have a: "get_linux_price_us_east_1 example_floats m5_large = Inr (Some (12 / 125))"
    using get_linux_price_shared_then_dedicated[of m5_large
        "JObj [(''Linux'', JObj [(''us-east-1'', JObj [(''Shared'', JStr ''0.096'')])])]"
        "JObj [(''us-east-1'', JObj [(''Shared'', JStr ''0.096'')])]"
        "[(''Shared'', JStr ''0.096'')]" example_floats]
    by (simp add: m5_large_def example_floats_def)
  have b: "get_linux_price_us_east_1 example_floats dedicated_only = Inr (Some (51 / 500))"
    using get_linux_price_shared_then_dedicated[of dedicated_only
        "JObj [(''Linux'', JObj [(''us-east-1'', JObj [(''Dedicated'', JStr ''0.102'')])])]"
        "JObj [(''us-east-1'', JObj [(''Dedicated'', JStr ''0.102'')])]"
        "[(''Dedicated'', JStr ''0.102'')]" example_floats]
    by (simp add: dedicated_only_def example_floats_def)
  have c: "get_linux_price_us_east_1 example_floats (JObj [(''vcpu'', JInt 2)]) = Inr None"
    using get_linux_price_shared_then_dedicated[of "JObj [(''vcpu'', JInt 2)]"
        "JObj []" "JObj []" "[]" example_floats]
    by simp
  have d: "filter_instances example_floats [(''t1'', JObj [(''vcpu'', JInt 2)])] 2 None = Inr []"
    using c get_linux_price_shared_then_dedicated[of "JObj [(''vcpu'', JInt 2)]"
        "JObj []" "JObj []" "[]" example_floats]
    by (simp add: filter_instances_def)
  from a b c d show ?thesis by blast
qed

section \<open>Properties of the matcher\<close>


lemma takeWhile_all_nth:
  assumes "k < length (takeWhile P xs)"
  shows "P (xs ! k)"
proof -
  have "takeWhile P xs ! k \<in> set (takeWhile P xs)" using assms by simp
  then have "P (takeWhile P xs ! k)" by (rule set_takeWhileD[THEN conjunct2])
  then show ?thesis using assms by (simp add: takeWhile_nth)
qed

lemma plus_iff:
  "e \<in> set (plus P t i) \<longleftrightarrow> i < e \<and> e \<le> i + length (takeWhile P (drop i t))"
proof
  assume "e \<in> set (plus P t i)"
  then show "i < e \<and> e \<le> i + length (takeWhile P (drop i t))"
    by (auto simp: plus_def)
next
  assume a: "i < e \<and> e \<le> i + length (takeWhile P (drop i t))"
  then have "e - i \<in> {1..<Suc (length (takeWhile P (drop i t)))}" by auto
  then have "i + (e - i) \<in> set (plus P t i)" unfolding plus_def by (simp del: upt_Suc)
  then show "e \<in> set (plus P t i)" using a by simp
qed

lemma plus_sound:
  assumes "e \<in> set (plus P t i)"
  shows "i < e" and "e \<le> length t" and "\<And>k. i \<le> k \<Longrightarrow> k < e \<Longrightarrow> P (t ! k)"
proof -
  from assms have a: "i < e" and b: "e \<le> i + length (takeWhile P (drop i t))"
    by (simp_all add: plus_iff)
  show "i < e" by (rule a)
  have c: "length (takeWhile P (drop i t)) \<le> length t - i"
    using length_takeWhile_le[of P "drop i t"] by simp
  have "0 < length (takeWhile P (drop i t))" using a b by linarith
  then have "i < length t" using c by linarith
  then show "e \<le> length t" using b c by linarith
  fix k assume "i \<le> k" "k < e"
  then have "k - i < length (takeWhile P (drop i t))" using b by linarith
  then have "P (drop i t ! (k - i))" by (rule takeWhile_all_nth)
  then show "P (t ! k)" using \<open>i \<le> k\<close> \<open>k < e\<close> \<open>e \<le> length t\<close> by simp
qed

lemma one_iff: "e \<in> set (one P t i) \<longleftrightarrow> e = Suc i \<and> i < length t \<and> P (t ! i)"
  by (auto simp: one_def)


lemma seq_iff: "e \<in> set (seq p q t i) \<longleftrightarrow> (\<exists>m \<in> set (p t i). e \<in> set (q t m))"
  by (auto simp: seq_def)



lemma bind_iff: "y \<in> set (List.bind xs f) \<longleftrightarrow> (\<exists>x \<in> set xs. y \<in> set (f x))"
  by (auto simp: List.bind_def)

lemma slice_set:
  assumes "x \<in> set (slice t i j)"
  shows "\<exists>k. i \<le> k \<and> k < j \<and> k < length t \<and> x = t ! k"
proof -
  from assms obtain n where n: "n < length (slice t i j)" "x = slice t i j ! n"
    by (auto simp: in_set_conv_nth)
  then have "n < j - i" "n < length t - i" by (simp_all add: slice_def)
  moreover from this n have "x = t ! (i + n)" by (simp add: slice_def)
  ultimately show ?thesis by (intro exI[of _ "i + n"]) auto
qed

lemma from_pattern_sound:
  assumes "(a, b, c, d) \<in> set (from_pattern v t)"
  shows "a < b \<and> c = Suc b \<and> c < d \<and> d < length t \<and>
         (t ! b = CHR ''@'' \<or> t ! b = CHR '':'') \<and>
         (\<forall>k. a \<le> k \<and> k < b \<longrightarrow> t ! k \<noteq> CHR ''@'' \<and> t ! k \<noteq> CHR '':'') \<and>
         (\<forall>k. c \<le> k \<and> k < d \<longrightarrow> t ! k \<noteq> CHR ''@'' \<and> \<not> is_space (t ! k)) \<and>
         is_space (t ! d)"
proof -
  from assms obtain e where
    b: "b \<in> set (plus (\<lambda>c. c \<noteq> CHR ''@'' \<and> c \<noteq> CHR '':'') t a)" and
    c: "c \<in> set (one (\<lambda>c. c = CHR ''@'' \<or> c = CHR '':'') t b)" and
    d: "d \<in> set (plus (\<lambda>c. c \<noteq> CHR ''@'' \<and> \<not> is_space c) t c)" and
    e: "e \<in> set (seq ws (seq (lit ''AS'') (seq ws (seq (plus dot) eol))) t d)"
    unfolding from_pattern_def by (auto simp: bind_iff)
  from e obtain m where m: "m \<in> set (plus is_space t d)"
    by (auto simp: seq_iff ws_def)
  note pb = plus_sound[OF b] and pd = plus_sound[OF d] and pm = plus_sound[OF m]
  from pm have "d < length t" "is_space (t ! d)" by auto
  moreover from c have "c = Suc b" "t ! b = CHR ''@'' \<or> t ! b = CHR '':''"
    by (auto simp: one_iff)
  ultimately show ?thesis using pb pd by auto
qed

lemma slice_split:
  "i \<le> j \<Longrightarrow> j \<le> length t \<Longrightarrow> drop i t = slice t i j @ drop j t"
proof -
  assume a: "i \<le> j" "j \<le> length t"
  have "drop i t = take (j - i) (drop i t) @ drop (j - i) (drop i t)"
    by (rule append_take_drop_id[symmetric])
  also have "drop (j - i) (drop i t) = drop j t" using a by simp
  finally show ?thesis by (simp add: slice_def)
qed




lemma plus_slice:
  assumes "e \<in> set (plus P t i)"
  shows "list_all P (slice t i e)"
proof -
  have "\<forall>x \<in> set (slice t i e). P x"
  proof
    fix x assume "x \<in> set (slice t i e)"
    from slice_set[OF this] obtain k where "i \<le> k" "k < e" "x = t ! k" by auto
    then show "P x" using plus_sound(3)[OF assms] by simp
  qed
  then show ?thesis by (simp add: list_all_iff)
qed



section \<open>Properties of the extractor\<close>

lemma extract_loop_eq:
  "fst (extract_loop v ls images out) = images @ List.map_filter (line_entry v) ls"
proof (induction ls arbitrary: images out)
  case Nil
  then show ?case by (simp add: List.map_filter_simps)
next
  case (Cons raw rest)
  define l where "l = strip raw"
  show ?case
  proof (cases "starts_with ''#'' l \<or> l = []")
    case True
    then have "line_entry v raw = None"
      and "extract_loop v (raw # rest) images out = extract_loop v rest images out"
      by (simp_all add: line_entry_def Let_def l_def)
    then show ?thesis using Cons.IH by (simp add: List.map_filter_simps)
  next
    case False
    show ?thesis
    proof (cases "from_pattern v l")
      case Nil
      with False have "line_entry v raw = None"
        and "extract_loop v (raw # rest) images out = extract_loop v rest images out"
        by (simp_all add: line_entry_def Let_def l_def)
      then show ?thesis using Cons.IH by (simp add: List.map_filter_simps)
    next
      case (Cons m ms)
      obtain a b c d where m: "m = (a, b, c, d)" by (cases m) auto
      consider (loc) "slice l c d = ''local''"
        | (sha) "slice l c d \<noteq> ''local''" "starts_with ''sha256:'' (slice l c d)"
        | (tag) "slice l c d \<noteq> ''local''" "\<not> starts_with ''sha256:'' (slice l c d)"
        by blast
      then show ?thesis
      proof cases
        case loc
        with False Cons m have "line_entry v raw = None"
          and "extract_loop v (raw # rest) images out =
               extract_loop v rest images (out @ [Skipping_local (slice l a b)])"
          by (simp_all add: line_entry_def Let_def l_def)
        then show ?thesis using Cons.IH by (simp add: List.map_filter_simps)
      next
        case sha
        with False Cons m
        have "line_entry v raw = Some (slice l a b, drop 7 (slice l c d), l)"
          and "extract_loop v (raw # rest) images out =
               extract_loop v rest (images @ [(slice l a b, drop 7 (slice l c d), l)]) out"
          by (simp_all add: line_entry_def Let_def l_def)
        then show ?thesis using Cons.IH by (simp add: List.map_filter_simps)
      next
        case tag
        with False Cons m have "line_entry v raw = None"
          and "extract_loop v (raw # rest) images out = extract_loop v rest images out"
          by (simp_all add: line_entry_def Let_def l_def)
        then show ?thesis using Cons.IH by (simp add: List.map_filter_simps)
      qed
    qed
  qed
qed

lemma extract_images_eq:
  "extract_images v content = List.map_filter (line_entry v) (readlines content)"
  by (simp add: extract_images_def extract_loop_eq)

lemma in_map_filter: "y \<in> set (List.map_filter f xs) \<longleftrightarrow> (\<exists>x \<in> set xs. f x = Some y)"
  by (induction xs) (auto simp: List.map_filter_simps split: option.splits)

lemma line_entry_SomeD:
  assumes "line_entry v raw = Some (name, digest, line)"
  shows "line = strip raw" and "\<not> starts_with ''#'' line" and "line \<noteq> []"
    and "\<exists>a b c d. from_pattern v line \<noteq> [] \<and> hd (from_pattern v line) = (a, b, c, d) \<and>
            name = slice line a b \<and> slice line c d = ''sha256:'' @ digest"
proof -
  define l where "l = strip raw"
  have c1: "\<not> (starts_with ''#'' l \<or> l = [])"
    using assms unfolding line_entry_def l_def Let_def by (auto split: if_splits)
  then have e: "(case from_pattern v l of
        [] \<Rightarrow> None
      | (a, b, c, d) # _ \<Rightarrow>
          if slice l c d = ''local'' then None
          else if starts_with ''sha256:'' (slice l c d)
          then Some (slice l a b, drop 7 (slice l c d), l)
          else None) = Some (name, digest, line)"
    using assms unfolding line_entry_def l_def Let_def by simp
  then obtain m ms where m: "from_pattern v l = m # ms"
    by (cases "from_pattern v l") simp_all
  obtain a b c d where abcd: "m = (a, b, c, d)" by (cases m) auto
  from e m abcd have e2: "(if slice l c d = ''local'' then None
          else if starts_with ''sha256:'' (slice l c d)
          then Some (slice l a b, drop 7 (slice l c d), l)
          else None) = Some (name, digest, line)" by simp
  then have s: "starts_with ''sha256:'' (slice l c d)"
    by (simp split: if_splits)
  from e2 have r: "name = slice l a b" "digest = drop 7 (slice l c d)" "line = l"
    by (auto split: if_splits)
  have l7: "length ''sha256:'' = 7" by simp
  from s have "take 7 (slice l c d) = ''sha256:''"
    unfolding starts_with_def l7 .
  then have "slice l c d = ''sha256:'' @ drop 7 (slice l c d)"
    using append_take_drop_id[of 7 "slice l c d"] by simp
  then have sd: "slice line c d = ''sha256:'' @ digest" using r by simp
  have ne: "from_pattern v line \<noteq> []" and hd: "hd (from_pattern v line) = (a, b, c, d)"
    using m abcd r by simp_all
  show "\<exists>a b c d. from_pattern v line \<noteq> [] \<and> hd (from_pattern v line) = (a, b, c, d) \<and>
            name = slice line a b \<and> slice line c d = ''sha256:'' @ digest"
    using ne hd r(1) r(3) sd
    by (intro exI[of _ a] exI[of _ b] exI[of _ c] exI[of _ d]) simp
  show "line = strip raw" using r(3) l_def by simp
  show "\<not> starts_with ''#'' line" "line \<noteq> []" using c1 r(3) by simp_all
qed

text \<open>
  Claim C3, as amended. The digest of every entry of \<open>extract_stagex_images\<close> is the
  reference token of its line (group 2 of the first match of the pattern on the stripped
  line) with the prefix \<open>sha256:\<close> removed: a string with no \<open>@\<close> and no whitespace. The
  extractor checks the prefix only, so the digest is 64 hexadecimal characters exactly
  when the rest of the token is.
\<close>

theorem extract_digest_is_reference_suffix:
  assumes "(name, digest, line) \<in> set (extract_images v content)"
  shows "(\<exists>raw \<in> set (readlines content). line = strip raw) \<and>
         (\<exists>a b c d. from_pattern v line \<noteq> [] \<and> hd (from_pattern v line) = (a, b, c, d) \<and>
            name = slice line a b \<and> slice line c d = ''sha256:'' @ digest) \<and>
         (\<forall>ch \<in> set digest. ch \<noteq> CHR ''@'' \<and> \<not> is_space ch)"
proof -
  from assms obtain raw where raw: "raw \<in> set (readlines content)"
    and le: "line_entry v raw = Some (name, digest, line)"
    by (auto simp: extract_images_eq in_map_filter)
  note l = line_entry_SomeD(1)[OF le] and ex = line_entry_SomeD(4)[OF le]
  from ex obtain a b c d where ne: "from_pattern v line \<noteq> []"
    and h: "hd (from_pattern v line) = (a, b, c, d)"
    and s: "slice line c d = ''sha256:'' @ digest"
    by auto
  from ne h have "(a, b, c, d) \<in> set (from_pattern v line)"
    using hd_in_set[of "from_pattern v line"] by simp
  from from_pattern_sound[OF this]
  have cls: "\<And>k. c \<le> k \<Longrightarrow> k < d \<Longrightarrow> line ! k \<noteq> CHR ''@'' \<and> \<not> is_space (line ! k)"
    by simp
  have dg: "\<forall>ch \<in> set digest. ch \<noteq> CHR ''@'' \<and> \<not> is_space ch"
  proof
    fix ch assume "ch \<in> set digest"
    then have "ch \<in> set (slice line c d)" using s by simp
    from slice_set[OF this] obtain k where "c \<le> k" "k < d" "ch = line ! k" by auto
    then show "ch \<noteq> CHR ''@'' \<and> \<not> is_space ch" using cls by simp
  qed
  have "\<exists>raw \<in> set (readlines content). line = strip raw" using raw l by (rule bexI[rotated])
  then show ?thesis using ex dg by simp
qed


theorem extract_digest_is_reference_suffix_witness:
  "(''foo'', ''abc'', ''FROM stagex/foo@sha256:abc AS x'')
     \<in> set (extract_images Stagex ''FROM stagex/foo@sha256:abc AS x'') \<and>
   list_all (\<lambda>ch. ch \<noteq> CHR ''@'' \<and> \<not> is_space ch) ''abc''"
proof -
  have m: "(''foo'', ''abc'', ''FROM stagex/foo@sha256:abc AS x'')
     \<in> set (extract_images Stagex ''FROM stagex/foo@sha256:abc AS x'')"
    by code_simp
  from extract_digest_is_reference_suffix[OF m]
  have "\<forall>ch \<in> set ''abc''. ch \<noteq> CHR ''@'' \<and> \<not> is_space ch" by blast
  then have "list_all (\<lambda>ch. ch \<noteq> CHR ''@'' \<and> \<not> is_space ch) ''abc''"
    unfolding list_all_iff .
  with m show ?thesis by simp
qed

text \<open>
  Claim C3 as stated fails: a line whose reference token is \<open>sha256:abc\<close> gives an entry
  whose digest is the three characters \<open>abc\<close>, in both scripts.
\<close>

theorem extract_digest_not_64_hex_counterexample:
  "extract_images Stagex ''FROM stagex/foo@sha256:abc AS x'' =
     [(''foo'', ''abc'', ''FROM stagex/foo@sha256:abc AS x'')] \<and>
   extract_images X86 ''FROM stagex/foo@sha256:abc AS x'' =
     [(''foo'', ''abc'', ''FROM stagex/foo@sha256:abc AS x'')] \<and>
   length ''abc'' \<noteq> (64 :: nat)"
  by code_simp

section \<open>Properties of the resolvers\<close>

text \<open>
  Claim C2 fails on the code. In update_stagex_hashes.py, \<open>get_arm64_hash\<close> catches only
  \<open>CalledProcessError\<close> and \<open>JSONDecodeError\<close>: a missing \<open>docker\<close> executable raises
  \<open>FileNotFoundError\<close>, and a manifest that is one JSON object (not a list of entries)
  raises \<open>AttributeError\<close>. In x86/update.py the URL is derived before the \<open>try\<close>, and an
  image name with no dash (\<open>busybox\<close>) raises \<open>ValueError\<close>, whatever the page.
\<close>

theorem get_arm64_hash_raises:
  "snd (get_arm64_hash_stagex (\<lambda>url. Docker_missing) ''core-busybox'') = Inl FileNotFoundError \<and>
   snd (get_arm64_hash_stagex (\<lambda>url. Docker_json (JObj [(''Ref'', JStr ''ghcr.io/x'')]))
          ''core-busybox'') = Inl AttributeError \<and>
   snd (get_arm64_hash_x86 fetch ''busybox'') = Inl ValueError"
  by (simp add: get_arm64_hash_stagex_def get_arm64_hash_x86_def package_url_def
      split_dash_def starts_with_def)

section \<open>Properties of the rewriter\<close>






lemma update_containerfile_unchanged:
  assumes "files w path = Some content" and "apply_updates v updates content = content"
  shows "update_containerfile v path updates w = (Inr (), print [No_changes_needed] w)"
  using assms by (simp add: update_containerfile_def)

lemma update_containerfile_changed:
  assumes "files w path = Some content" and "apply_updates v updates content \<noteq> content"
  shows "update_containerfile v path updates w =
     (Inr (), print [Updated path]
        (write_file path (apply_updates v updates content)
          (print [Backup_created (path @ ''.backup'')]
            (write_file (path @ ''.backup'') content w))))"
  using assms by (simp add: update_containerfile_def Let_def)

lemma print_simps [simp]:
  "files (print ms w) = files w" "writes (print ms w) = writes w"
  "stdout (print ms w) = stdout w @ ms"
  by (simp_all add: print_def)

lemma write_file_simps [simp]:
  "files (write_file p c w) = (files w)(p \<mapsto> c)"
  "writes (write_file p c w) = writes w @ [(p, c)]"
  "stdout (write_file p c w) = stdout w"
  by (simp_all add: write_file_def)





text \<open>
  Claim C7. When the text after the replacements differs from the original,
  \<open>update_containerfile\<close> does exactly two writes, in this order: the original content to
  \<open><path>.backup\<close>, then the new content to \<open><path>\<close>. When the text is unchanged, or the
  file cannot be read, it writes nothing.
\<close>

theorem update_containerfile_write_order:
  "(\<forall>original. files w path = Some original \<longrightarrow>
      apply_updates v updates original \<noteq> original \<longrightarrow>
      writes (snd (update_containerfile v path updates w)) =
        writes w @ [(path @ ''.backup'', original), (path, apply_updates v updates original)]) \<and>
   (\<forall>original. files w path = Some original \<longrightarrow>
      apply_updates v updates original = original \<longrightarrow>
      writes (snd (update_containerfile v path updates w)) = writes w \<and>
      files (snd (update_containerfile v path updates w)) = files w) \<and>
   (files w path = None \<longrightarrow>
      writes (snd (update_containerfile v path updates w)) = writes w \<and>
      files (snd (update_containerfile v path updates w)) = files w)"
proof (intro conjI allI impI)
  fix original assume "files w path = Some original" "apply_updates v updates original \<noteq> original"
  from update_containerfile_changed[OF this]
  show "writes (snd (update_containerfile v path updates w)) =
        writes w @ [(path @ ''.backup'', original), (path, apply_updates v updates original)]"
    by simp
next
  fix original assume a: "files w path = Some original" "apply_updates v updates original = original"
  from update_containerfile_unchanged[OF this]
  show "writes (snd (update_containerfile v path updates w)) = writes w"
    and "files (snd (update_containerfile v path updates w)) = files w"
    by simp_all
next
  assume "files w path = None"
  then show "writes (snd (update_containerfile v path updates w)) = writes w"
    and "files (snd (update_containerfile v path updates w)) = files w"
    by (simp_all add: update_containerfile_def)
qed

subsection \<open>The sample inputs, evaluated\<close>

lemma example_file: "files example_world ''Containerfile'' = Some containerfile_example"
  by (simp add: example_world_def)

lemma example_update:
  "apply_updates Stagex [(''foo'', hexB)] containerfile_example = containerfile_updated"
  by code_simp

lemma example_changed: "containerfile_updated \<noteq> containerfile_example"
  by code_simp

theorem update_containerfile_write_order_witness:
  "writes (snd (update_containerfile Stagex ''Containerfile'' [(''foo'', hexB)] example_world)) =
     [(''Containerfile.backup'', containerfile_example),
      (''Containerfile'', containerfile_updated)] \<and>
   writes (snd (update_containerfile Stagex ''Containerfile'' [] example_world)) = []"
proof -
  have w0: "writes example_world = []" by (simp add: example_world_def)
  note t1 = update_containerfile_write_order[of example_world "''Containerfile''" Stagex
      "[(''foo'', hexB)]", THEN conjunct1, rule_format, OF example_file]
  note t2 = update_containerfile_write_order[of example_world "''Containerfile''" Stagex
      "[]", THEN conjunct2, THEN conjunct1, rule_format, OF example_file]
  have "writes (snd (update_containerfile Stagex ''Containerfile'' [(''foo'', hexB)]
           example_world)) =
     [(''Containerfile.backup'', containerfile_example),
      (''Containerfile'', containerfile_updated)]"
    using t1 example_update example_changed w0 by simp
  moreover have "writes (snd (update_containerfile Stagex ''Containerfile'' [] example_world)) = []"
    using t2 w0 by simp
  ultimately show ?thesis by simp
qed




section \<open>Properties of main\<close>










end
